theory Spec2Isabelle
  imports Main
begin

unbundle bit_operations_syntax

section \<open>The cycle-stepped 6502 driver of 6502.ts (src/machine/cpu/StateMachineCpu.ts)\<close>

text \<open>
  The driver class \<open>StateMachineCpu\<close> is embedded function by function. JavaScript
  numbers are natural numbers here, and every mask of the source (\<open>& 0xffff\<close>) is written
  out. A field or method whose source name starts with an underscore carries a trailing
  prime instead (\<open>_halt\<close> is \<open>halt'\<close>, \<open>_fetch\<close> is \<open>fetch'\<close>). The fields of the register
  file carry the prefix \<open>st_\<close>, since \<open>a\<close>, \<open>x\<close>, \<open>p\<close> ... would capture variables.
\<close>

subsection \<open>Data model\<close>

text \<open>
  Modelled from the spec: \<open>CpuInterface.Flags\<close> (the repository's CpuInterface.ts is
  not under src/). The spec gives the bits as N=0x80, V=0x40, E=0x20, B=0x10, D=0x08,
  I=0x04, Z=0x02, C=0x01.
\<close>

definition Flags_c :: nat where "Flags_c = 0x01"
definition Flags_z :: nat where "Flags_z = 0x02"
definition Flags_i :: nat where "Flags_i = 0x04"
definition Flags_d :: nat where "Flags_d = 0x08"
definition Flags_b :: nat where "Flags_b = 0x10"
definition Flags_e :: nat where "Flags_e = 0x20"
definition Flags_v :: nat where "Flags_v = 0x40"
definition Flags_n :: nat where "Flags_n = 0x80"

text \<open>
  Modelled from the spec: \<open>CpuInterface.State\<close>, the register file: \<open>a\<close>, \<open>x\<close>, \<open>y\<close>,
  \<open>s\<close>, \<open>p\<close>, the flag byte and the two interrupt latches \<open>irq\<close> and \<open>nmi\<close>.
\<close>

record State =
  st_a :: nat
  st_x :: nat
  st_y :: nat
  st_s :: nat
  st_p :: nat
  st_flags :: nat
  st_irq :: bool
  st_nmi :: bool

text \<open>
  Modelled from the spec: \<open>CpuInterface.ExecutionState\<close>, the phase of the driver.
\<close>

datatype ExecutionState = boot | fetch | execute

text \<open>
  Modelled from the spec: \<open>StateMachineInterface.CycleType\<close> has the members \<open>read\<close> and
  \<open>write\<close> (\<open>read_cycle\<close>, \<open>write_cycle\<close>). A TypeScript enum is a number at run time, so
  the \<open>default\<close> branch of the switch in \<open>cycle\<close> can be taken: \<open>invalid_cycle n\<close> stands for
  any other number.
\<close>

datatype CycleType = read_cycle | write_cycle | invalid_cycle nat

text \<open>
  Modelled from the spec: \<open>StateMachineInterface.Result\<close>, the microcycle result
  \<open>{cycleType, address, value, pollInterrupts, nextStep}\<close>. The result is an object that
  its micro-program keeps and may hand out again, and \<open>nextStep\<close> is called on that object.
  Of its fields the driver writes one, \<open>pollInterrupts\<close>, just before the call. So the
  continuation \<open>nextStep\<close> is given, in this order, the value of \<open>pollInterrupts\<close> that its
  object holds when it is called, the bus value, and the register file it shares with the
  driver; it returns the next result, or \<open>null\<close> (\<open>None\<close>) when the instruction is done,
  and the register file as it leaves it. A micro-program need not finish, hence a
  codatatype. The field \<open>value\<close> is called \<open>val\<close>.
\<close>

codatatype Result =
  Result (cycleType: CycleType) (address: nat) (val: nat) (pollInterrupts: bool)
         (nextStep: "bool \<Rightarrow> nat \<Rightarrow> State \<Rightarrow> Result option \<times> State")

text \<open>
  Modelled from the spec: \<open>StateMachineInterface\<close>. The driver only ever calls
  \<open>reset(undefined)\<close>, which re-initialises the micro-program and returns its first
  result; the result may depend on the register file (the address of a read at \<open>p\<close>),
  and the register file itself is mutated only by the continuations, between bus cycles.
\<close>

type_synonym StateMachine = "State \<Rightarrow> Result"

text \<open>The mutable fields of the driver object.\<close>

record StateMachineCpu =
  state :: State
  executionState :: ExecutionState
  lastResult' :: "Result option"
  interruptPending' :: bool
  nmiPending' :: bool
  halt' :: bool
  pollInterruptsAfterLastInstruction' :: bool
  lastInstructionPointer' :: nat

text \<open>
  What the driver does to the outside is recorded as it happens: every call of
  \<open>bus.read\<close> and \<open>bus.write\<close>, and every run of the poll step \<open>_pollInterrupts\<close>, appends
  one event to \<open>trace\<close>. The code never reads the trace. \<open>ext\<close> is the state of the
  collaborators (the bus with whatever sits behind it, and the random generator).
\<close>

datatype Event = BusRead nat | BusWrite nat nat | Poll

record 'w World =
  ext :: 'w
  trace :: "Event list"

text \<open>
  What is fixed while the driver runs: the bus and the optional random generator passed to
  the constructor, the three vectored micro-programs and the opcode table built there
  (\<open>vector.ts\<close> and \<open>Compiler.ts\<close> are not under src/, so they are parameters), and the
  invalid-instruction callback, host code that is handed the driver object and may change
  it.
\<close>

record 'w Collaborators =
  bus_read :: "nat \<Rightarrow> 'w \<Rightarrow> nat \<times> 'w"
  bus_write :: "nat \<Rightarrow> nat \<Rightarrow> 'w \<Rightarrow> 'w"
  rng_int :: "(nat \<Rightarrow> 'w \<Rightarrow> nat \<times> 'w) option"
  opBoot' :: StateMachine
  opNmi' :: StateMachine
  opIrq' :: StateMachine
  operations' :: "nat \<rightharpoonup> StateMachine"
  invalidInstructionCallback' :: "(StateMachineCpu \<Rightarrow> StateMachineCpu) option"

datatype Error = invalid_cycle_type | null_dereference

subsection \<open>The methods of the driver\<close>

text \<open>\<open>this._rng ? this._rng.int(upper) : 0\<close>\<close>

definition rng_or_zero :: "'w Collaborators \<Rightarrow> nat \<Rightarrow> 'w World \<Rightarrow> nat \<times> 'w World" where
  "rng_or_zero env upper w =
     (case rng_int env of
        None \<Rightarrow> (0, w)
      | Some gen \<Rightarrow> (let (v, e) = gen upper (ext w) in (v, w\<lparr>ext := e\<rparr>)))"

definition reset ::
  "'w Collaborators \<Rightarrow> StateMachineCpu \<Rightarrow> 'w World \<Rightarrow> StateMachineCpu \<times> 'w World" where
  "reset env d w =
     (let (va, w1) = rng_or_zero env 0xff w;
          (vx, w2) = rng_or_zero env 0xff w1;
          (vy, w3) = rng_or_zero env 0xff w2;
          (vp, w4) = rng_or_zero env 0xffff w3;
          (vf, w5) = rng_or_zero env 0xff w4;
          st = (state d)\<lparr>st_a := va, st_x := vx, st_y := vy, st_s := 0xfd, st_p := vp,
                 st_flags := vf OR Flags_i OR Flags_e OR Flags_b,
                 st_irq := False, st_nmi := False\<rparr>
      in (d\<lparr>state := st,
            executionState := boot,
            interruptPending' := False,
            nmiPending' := False,
            halt' := False,
            lastResult' := Some (opBoot' env st),
            lastInstructionPointer' := 0\<rparr>, w5))"

text \<open>
  The constructor: the field initialisers of the class, then \<open>reset()\<close>. Modelled from the
  spec: \<open>new CpuInterface.State()\<close>, taken to be all zero (\<open>reset\<close> overwrites every field).
\<close>

definition new_State :: State where
  "new_State = \<lparr>st_a = 0, st_x = 0, st_y = 0, st_s = 0, st_p = 0, st_flags = 0,
                st_irq = False, st_nmi = False\<rparr>"

definition new_StateMachineCpu ::
  "'w Collaborators \<Rightarrow> 'w World \<Rightarrow> StateMachineCpu \<times> 'w World" where
  "new_StateMachineCpu env w =
     reset env \<lparr>state = new_State, executionState = boot, lastResult' = None,
                interruptPending' = False, nmiPending' = False, halt' = False,
                pollInterruptsAfterLastInstruction' = False,
                lastInstructionPointer' = 0\<rparr> w"

definition setInvalidInstructionCallback ::
  "(StateMachineCpu \<Rightarrow> StateMachineCpu) option \<Rightarrow> 'w Collaborators \<Rightarrow> 'w Collaborators" where
  "setInvalidInstructionCallback callback env = env\<lparr>invalidInstructionCallback' := callback\<rparr>"

definition getInvalidInstructionCallback ::
  "'w Collaborators \<Rightarrow> (StateMachineCpu \<Rightarrow> StateMachineCpu) option" where
  "getInvalidInstructionCallback env = invalidInstructionCallback' env"

definition setInterrupt :: "bool \<Rightarrow> StateMachineCpu \<Rightarrow> StateMachineCpu" where
  "setInterrupt i d = d\<lparr>interruptPending' := i\<rparr>"

definition isInterrupt :: "StateMachineCpu \<Rightarrow> bool" where
  "isInterrupt d = interruptPending' d"

definition nmi :: "StateMachineCpu \<Rightarrow> StateMachineCpu" where
  "nmi d = d\<lparr>nmiPending' := True\<rparr>"

definition halt :: "StateMachineCpu \<Rightarrow> StateMachineCpu" where
  "halt d = d\<lparr>halt' := True\<rparr>"

definition resume :: "StateMachineCpu \<Rightarrow> StateMachineCpu" where
  "resume d = d\<lparr>halt' := False\<rparr>"

definition isHalt :: "StateMachineCpu \<Rightarrow> bool" where
  "isHalt d = halt' d"

definition getLastInstructionPointer :: "StateMachineCpu \<Rightarrow> nat" where
  "getLastInstructionPointer d = lastInstructionPointer' d"

text \<open>\<open>_pollInterrupts\<close>\<close>

definition pollInterrupts' ::
  "StateMachineCpu \<Rightarrow> 'w World \<Rightarrow> StateMachineCpu \<times> 'w World" where
  "pollInterrupts' d w =
     (let w1 = w\<lparr>trace := trace w @ [Poll]\<rparr>;
          d1 = d\<lparr>state := (state d)\<lparr>st_irq := False\<rparr>\<rparr>
      in if nmiPending' d1
         then (d1\<lparr>state := (state d1)\<lparr>st_nmi := True\<rparr>, nmiPending' := False\<rparr>, w1)
         else if interruptPending' d1 \<and> \<not> st_nmi (state d1)
                 \<and> \<not> (st_flags (state d1) AND Flags_i \<noteq> 0)
         then (d1\<lparr>state := (state d1)\<lparr>st_irq := True\<rparr>\<rparr>, w1)
         else (d1, w1))"

text \<open>\<open>_fetch\<close>\<close>

definition fetch' ::
  "'w Collaborators \<Rightarrow> StateMachineCpu \<Rightarrow> 'w World \<Rightarrow> StateMachineCpu \<times> 'w World" where
  "fetch' env d w =
     (let (d1, w1) = (if pollInterruptsAfterLastInstruction' d
                      then pollInterrupts' d w else (d, w));
          d2 = d1\<lparr>lastInstructionPointer' := st_p (state d1)\<rparr>;
          (opcode, e) = bus_read env (st_p (state d2)) (ext w1);
          w2 = w1\<lparr>ext := e, trace := trace w1 @ [BusRead (st_p (state d2))]\<rparr>;
          (operation, d3) =
             (if st_nmi (state d2)
              then (Some (opNmi' env), d2\<lparr>pollInterruptsAfterLastInstruction' := False\<rparr>)
              else if st_irq (state d2)
              then (Some (opIrq' env), d2\<lparr>pollInterruptsAfterLastInstruction' := False\<rparr>)
              else (operations' env opcode,
                    d2\<lparr>state := (state d2)\<lparr>st_p := (st_p (state d2) + 1) AND 0xffff\<rparr>,
                       pollInterruptsAfterLastInstruction' := True\<rparr>))
      in case operation of
           None \<Rightarrow>
             (case invalidInstructionCallback' env of
                Some callback \<Rightarrow> (callback d3, w2)
              | None \<Rightarrow> (d3, w2))
         | Some m \<Rightarrow>
             (d3\<lparr>executionState := execute, lastResult' := Some (m (state d3))\<rparr>, w2))"

text \<open>
  The second half of \<open>cycle\<close>, after the bus action: \<open>r\<close> is \<open>this._lastResult\<close> and
  \<open>v\<close> the value read from the bus or written to it. \<open>r1\<close> is the same object after
  the driver has cleared its flag, if it was set; the continuation is called on \<open>r1\<close>.
\<close>

definition advance ::
  "Result \<Rightarrow> nat \<Rightarrow> StateMachineCpu \<Rightarrow> 'w World \<Rightarrow> StateMachineCpu \<times> 'w World" where
  "advance r v d w =
     (let (d1, w1, r1) =
            (if pollInterrupts r
             then (let (dp, wp) = pollInterrupts' d w;
                       rc = Result (cycleType r) (address r) (val r) False (nextStep r)
                   in (dp\<lparr>lastResult' := Some rc,
                          pollInterruptsAfterLastInstruction' := False\<rparr>, wp, rc))
             else (d, w, r));
          (nxt, st) = nextStep r1 (pollInterrupts r1) v (state d1);
          d2 = d1\<lparr>state := st, lastResult' := nxt\<rparr>
      in (if nxt = None then d2\<lparr>executionState := fetch\<rparr> else d2, w1))"

definition cycle ::
  "'w Collaborators \<Rightarrow> StateMachineCpu \<Rightarrow> 'w World \<Rightarrow> Error + StateMachineCpu \<times> 'w World"
  where
  "cycle env d w =
     (if halt' d \<and> (case lastResult' d of None \<Rightarrow> True | Some r \<Rightarrow> cycleType r = read_cycle)
      then Inr (d, w)
      else if executionState d = fetch then Inr (fetch' env d w)
      else case lastResult' d of
             None \<Rightarrow> Inl null_dereference
           | Some r \<Rightarrow>
               (case cycleType r of
                  read_cycle \<Rightarrow>
                    (let (v, e) = bus_read env (address r) (ext w)
                     in Inr (advance r v d
                               (w\<lparr>ext := e, trace := trace w @ [BusRead (address r)]\<rparr>)))
                | write_cycle \<Rightarrow>
                    (let v = val r
                     in Inr (advance r v d
                               (w\<lparr>ext := bus_write env (address r) v (ext w),
                                  trace := trace w @ [BusWrite (address r) v]\<rparr>)))
                | invalid_cycle n \<Rightarrow> Inl invalid_cycle_type))"

subsection \<open>Calls of the host, and runs\<close>

text \<open>
  The public methods that change the driver, as the host calls them one after the other.
  A run stops at the first call that throws.
\<close>

datatype Call = Cycle | Reset | SetInterrupt bool | Nmi | Halt | Resume

fun call ::
  "'w Collaborators \<Rightarrow> Call \<Rightarrow> StateMachineCpu \<times> 'w World
     \<Rightarrow> Error + StateMachineCpu \<times> 'w World" where
  "call env Cycle (d, w) = cycle env d w"
| "call env Reset (d, w) = Inr (reset env d w)"
| "call env (SetInterrupt i) (d, w) = Inr (setInterrupt i d, w)"
| "call env Nmi (d, w) = Inr (nmi d, w)"
| "call env Halt (d, w) = Inr (halt d, w)"
| "call env Resume (d, w) = Inr (resume d, w)"

fun calls ::
  "'w Collaborators \<Rightarrow> Call list \<Rightarrow> StateMachineCpu \<times> 'w World
     \<Rightarrow> Error + StateMachineCpu \<times> 'w World" where
  "calls env [] dw = Inr dw"
| "calls env (c # cs) dw =
     (case call env c dw of Inl e \<Rightarrow> Inl e | Inr dw' \<Rightarrow> calls env cs dw')"

text \<open>\<open>n\<close> calls of \<open>cycle()\<close> in a row.\<close>

fun cycles ::
  "nat \<Rightarrow> 'w Collaborators \<Rightarrow> StateMachineCpu \<Rightarrow> 'w World
     \<Rightarrow> Error + StateMachineCpu \<times> 'w World" where
  "cycles 0 env d w = Inr (d, w)"
| "cycles (Suc n) env d w =
     (case cycle env d w of Inl e \<Rightarrow> Inl e | Inr (d', w') \<Rightarrow> cycles n env d' w')"

subsection \<open>Notions used to state the properties\<close>

text \<open>
  The first test of \<open>cycle\<close>: the driver is halted and its next step is a read (a pending
  read result, or no pending result at all).
\<close>

definition suspended :: "StateMachineCpu \<Rightarrow> bool" where
  "suspended d =
     (halt' d \<and> (case lastResult' d of None \<Rightarrow> True | Some r \<Rightarrow> cycleType r = read_cycle))"

text \<open>
  The phase is \<open>fetch\<close> exactly when there is no pending result. \<open>reset\<close> establishes
  this and every public method keeps it, so it holds in every state the driver reaches
  (lemma \<open>reachable_phase_consistent\<close>).
\<close>

definition phase_consistent :: "StateMachineCpu \<Rightarrow> bool" where
  "phase_consistent d = (executionState d = fetch \<longleftrightarrow> lastResult' d = None)"

text \<open>The events of a trace that are bus operations, and the number of its poll steps.\<close>

definition bus_ops :: "Event list \<Rightarrow> Event list" where
  "bus_ops evs = filter (\<lambda>e. e \<noteq> Poll) evs"

definition count_polls :: "Event list \<Rightarrow> nat" where
  "count_polls evs = length (filter (\<lambda>e. e = Poll) evs)"

text \<open>
  Every result a micro-program hands out, now or after any number of steps, has cycle type
  \<open>read\<close> or \<open>write\<close>.
\<close>

coinductive results_ok :: "Result \<Rightarrow> bool" where
  "cycleType r = read_cycle \<or> cycleType r = write_cycle \<Longrightarrow>
   \<forall>f v s r'. fst (nextStep r f v s) = Some r' \<longrightarrow> results_ok r' \<Longrightarrow>
   results_ok r"

definition machines_ok :: "'w Collaborators \<Rightarrow> bool" where
  "machines_ok env =
     ((\<forall>s. results_ok (opBoot' env s)) \<and> (\<forall>s. results_ok (opNmi' env s)) \<and>
      (\<forall>s. results_ok (opIrq' env s)) \<and>
      (\<forall>opcode m s. operations' env opcode = Some m \<longrightarrow> results_ok (m s)))"

definition driver_ok :: "StateMachineCpu \<Rightarrow> bool" where
  "driver_ok d =
     (phase_consistent d \<and> (\<forall>r. lastResult' d = Some r \<longrightarrow> results_ok r))"

text \<open>
  The callback is host code: what it may do to the driver is bounded by what the host may
  do between two cycles, which keeps \<open>driver_ok\<close>.
\<close>

definition callback_ok :: "'w Collaborators \<Rightarrow> bool" where
  "callback_ok env =
     (\<forall>cb d. invalidInstructionCallback' env = Some cb \<longrightarrow> driver_ok d \<longrightarrow> driver_ok (cb d))"




text \<open>
  The driver as \<open>_fetch\<close> sees it once the poll carried over from the last instruction,
  if any, has run.
\<close>

definition carried_poll :: "StateMachineCpu \<Rightarrow> 'w World \<Rightarrow> StateMachineCpu" where
  "carried_poll d w =
     (if pollInterruptsAfterLastInstruction' d then fst (pollInterrupts' d w) else d)"


text \<open>
  The history reading of \<open>getLastInstructionPointer\<close>: the value of \<open>p\<close> at the start of the
  most recent fetch cycle, that is, of the most recent call of \<open>cycle()\<close> made in phase
  \<open>fetch\<close> and not suspended; \<open>0\<close> when there was none since the last reset. \<open>g\<close> is the
  value for the calls made so far.
\<close>

definition fetches :: "StateMachineCpu \<Rightarrow> bool" where
  "fetches d = (executionState d = fetch \<and> \<not> suspended d)"

fun start_of_last_fetch ::
  "'w Collaborators \<Rightarrow> Call list \<Rightarrow> StateMachineCpu \<times> 'w World \<Rightarrow> nat \<Rightarrow> nat" where
  "start_of_last_fetch env [] dw g = g"
| "start_of_last_fetch env (c # cs) dw g =
     (case call env c dw of
        Inl e \<Rightarrow> g
      | Inr dw' \<Rightarrow>
          start_of_last_fetch env cs dw'
            (case c of
               Cycle \<Rightarrow> if fetches (fst dw) then st_p (state (fst dw)) else g
             | Reset \<Rightarrow> 0
             | _ \<Rightarrow> g))"

subsection \<open>Example collaborators\<close>

text \<open>
  A bus that is plain memory, and a few micro-programs, for the concrete runs below.
  Modelled from the spec: the micro-programs of \<open>vector.ts\<close> and of the compiler are not
  under src/; these follow sections 4.4, 4.5 and 4.7 of the spec.
\<close>

definition ram_read :: "nat \<Rightarrow> (nat \<Rightarrow> nat) \<Rightarrow> nat \<times> (nat \<Rightarrow> nat)" where
  "ram_read a m = (m a, m)"

definition ram_write :: "nat \<Rightarrow> nat \<Rightarrow> (nat \<Rightarrow> nat) \<Rightarrow> (nat \<Rightarrow> nat)" where
  "ram_write a v m = m(a := v)"

text \<open>NOP: one implied cycle, a dummy read at \<open>p\<close>, on which interrupts are polled.\<close>

definition op_nop :: StateMachine where
  "op_nop s = Result read_cycle (st_p s) 0 True (\<lambda>f v s1. (None, s1))"

text \<open>SEI: one implied cycle; the flag I is set when the cycle completes.\<close>

definition op_sei :: StateMachine where
  "op_sei s =
     Result read_cycle (st_p s) 0 True
       (\<lambda>f v s1. (None, s1\<lparr>st_flags := st_flags s1 OR Flags_i\<rparr>))"

text \<open>
  Interrupt entry: push PCH, PCL and the flags with B clear and E set, set I, read the
  vector, assign \<open>p\<close>.
\<close>

definition op_interrupt :: "nat \<Rightarrow> StateMachine" where
  "op_interrupt vector s =
     Result write_cycle (0x0100 OR st_s s) (drop_bit 8 (st_p s)) False
       (\<lambda>f v s1. (Some (Result write_cycle (0x0100 OR ((st_s s1 + 0xff) AND 0xff))
                         (st_p s1 AND 0xff) False
         (\<lambda>f v s2. (Some (Result write_cycle (0x0100 OR ((st_s s2 + 0xff) AND 0xff))
                           ((st_flags s2 OR Flags_e) AND 0xef) False
           (\<lambda>f v s3. (Some (Result read_cycle vector 0 False
             (\<lambda>f lo s4. (Some (Result read_cycle (vector + 1) 0 False
               (\<lambda>f hi s5. (None, s5\<lparr>st_p := lo OR push_bit 8 hi\<rparr>))),
                        s4))),
                     s3\<lparr>st_s := (st_s s3 + 0xff) AND 0xff,
                        st_flags := st_flags s3 OR Flags_i\<rparr>))),
                   s2\<lparr>st_s := (st_s s2 + 0xff) AND 0xff\<rparr>))),
                 s1\<lparr>st_s := (st_s s1 + 0xff) AND 0xff\<rparr>))"

text \<open>
  Boot: two dummy reads at \<open>p\<close>, three dummy stack reads that only decrement \<open>s\<close>, the
  reset vector at \<open>$FFFC\<close> and \<open>$FFFD\<close>, then \<open>p\<close> is assigned and I set.
\<close>

definition op_boot :: StateMachine where
  "op_boot s =
     Result read_cycle (st_p s) 0 False
       (\<lambda>f v s1. (Some (Result read_cycle (st_p s1) 0 False
         (\<lambda>f v s2. (Some (Result read_cycle (0x0100 OR st_s s2) 0 False
           (\<lambda>f v s3. (Some (Result read_cycle (0x0100 OR ((st_s s3 + 0xff) AND 0xff)) 0 False
             (\<lambda>f v s4. (Some (Result read_cycle (0x0100 OR ((st_s s4 + 0xff) AND 0xff)) 0 False
               (\<lambda>f v s5. (Some (Result read_cycle 0xfffc 0 False
                 (\<lambda>f lo s6. (Some (Result read_cycle 0xfffd 0 False
                   (\<lambda>f hi s7. (None, s7\<lparr>st_p := lo OR push_bit 8 hi,
                                        st_flags := st_flags s7 OR Flags_i\<rparr>))),
                            s6))),
                          s5\<lparr>st_s := (st_s s5 + 0xff) AND 0xff\<rparr>))),
                        s4\<lparr>st_s := (st_s s4 + 0xff) AND 0xff\<rparr>))),
                      s3\<lparr>st_s := (st_s s3 + 0xff) AND 0xff\<rparr>))),
                    s2))),
                  s1))"

text \<open>
  PHA: an implied cycle on which interrupts are polled, then the write of \<open>a\<close> to
  \<open>0x0100 | s\<close>, after which \<open>s\<close> is decremented within eight bits.
\<close>

definition op_pha_push :: "State \<Rightarrow> Result" where
  "op_pha_push s =
     Result write_cycle (0x0100 OR st_s s) (st_a s) False
       (\<lambda>f v s1. (None, s1\<lparr>st_s := (st_s s1 + 0xff) AND 0xff\<rparr>))"

definition op_pha :: StateMachine where
  "op_pha s = Result read_cycle (st_p s) 0 True (\<lambda>f v s1. (Some (op_pha_push s1), s1))"

text \<open>
  A driver with no random generator and no callback, whose opcode table holds NOP at
  \<open>0xEA\<close>, SEI at \<open>0x78\<close> and PHA at \<open>0x48\<close> and is empty elsewhere.
\<close>

definition demo_env :: "(nat \<Rightarrow> nat) Collaborators" where
  "demo_env =
     \<lparr>bus_read = ram_read, bus_write = ram_write, rng_int = None,
      opBoot' = op_boot, opNmi' = op_interrupt 0xfffa, opIrq' = op_interrupt 0xfffe,
      operations' = [0xea \<mapsto> op_nop, 0x78 \<mapsto> op_sei, 0x48 \<mapsto> op_pha],
      invalidInstructionCallback' = None\<rparr>"

text \<open>
  Memory: the invalid opcode \<open>0x02\<close> at \<open>0x1000\<close>, SEI at \<open>0x2000\<close>, NOP everywhere else.
\<close>

definition demo_world :: "(nat \<Rightarrow> nat) World" where
  "demo_world = \<lparr>ext = (\<lambda>a. 0xea)(0x1000 := 0x02, 0x2000 := 0x78), trace = []\<rparr>"

text \<open>
  A driver in phase \<open>fetch\<close> with \<open>p = 0x1000\<close>, flags \<open>0x20\<close> (I clear), nothing pending.
\<close>

definition demo_cpu :: StateMachineCpu where
  "demo_cpu =
     \<lparr>state = \<lparr>st_a = 0, st_x = 0, st_y = 0, st_s = 0xfd, st_p = 0x1000, st_flags = 0x20,
               st_irq = False, st_nmi = False\<rparr>,
      executionState = fetch, lastResult' = None, interruptPending' = False,
      nmiPending' = False, halt' = False, pollInterruptsAfterLastInstruction' = False,
      lastInstructionPointer' = 0\<rparr>"

text \<open>
  The example driver in the middle of an IRQ entry: \<open>p = 0x1234\<close>, the push of PCH pending.
\<close>

definition demo_entry :: StateMachineCpu where
  "demo_entry =
     demo_cpu\<lparr>state := (state demo_cpu)\<lparr>st_p := 0x1234\<rparr>, executionState := execute,
              lastResult' := Some (op_interrupt 0xfffe ((state demo_cpu)\<lparr>st_p := 0x1234\<rparr>))\<rparr>"

text \<open>The example driver in the last cycle of a PHA, the write pending.\<close>

definition demo_push :: StateMachineCpu where
  "demo_push =
     demo_cpu\<lparr>state := (state demo_cpu)\<lparr>st_a := 0x55, st_p := 0x1234\<rparr>,
              executionState := execute,
              lastResult' := Some (op_pha_push ((state demo_cpu)\<lparr>st_a := 0x55, st_p := 0x1234\<rparr>))\<rparr>"

text \<open>
  The example driver about to fetch the SEI at \<open>0x2000\<close> with the IRQ line asserted, and
  the state it is in two cycles later: the poll on the SEI's only cycle latched the IRQ
  while I was still clear, then the SEI set I.
\<close>

definition demo_before_sei :: StateMachineCpu where
  "demo_before_sei = setInterrupt True (demo_cpu\<lparr>state := (state demo_cpu)\<lparr>st_p := 0x2000\<rparr>\<rparr>)"

definition demo_after_sei :: StateMachineCpu where
  "demo_after_sei =
     \<lparr>state = \<lparr>st_a = 0, st_x = 0, st_y = 0, st_s = 0xfd, st_p = 0x2001, st_flags = 0x24,
               st_irq = True, st_nmi = False\<rparr>,
      executionState = fetch, lastResult' = None, interruptPending' = True,
      nmiPending' = False, halt' = False, pollInterruptsAfterLastInstruction' = False,
      lastInstructionPointer' = 0x2000\<rparr>"





definition op_reuse :: StateMachine where
  "op_reuse s =
     Result read_cycle (st_p s) 0 True
       (\<lambda>f v s1. (Some (Result read_cycle (st_p s1) 0 f (\<lambda>f v s2. (None, s2))), s1))"



section \<open>Properties\<close>

lemmas Flags_defs = Flags_c_def Flags_z_def Flags_i_def Flags_d_def Flags_b_def Flags_e_def
  Flags_v_def Flags_n_def

lemma rng_or_zero_absent: "rng_int env = None \<Longrightarrow> rng_or_zero env upper w = (0, w)"
  by (simp add: rng_or_zero_def)

lemma reset_absent:
  assumes "rng_int env = None"
  shows "reset env d w =
           (let st = (state d)\<lparr>st_a := 0, st_x := 0, st_y := 0, st_s := 0xfd, st_p := 0,
                                st_flags := 0x34, st_irq := False, st_nmi := False\<rparr>
            in (d\<lparr>state := st, executionState := boot, interruptPending' := False,
                  nmiPending' := False, halt' := False, lastResult' := Some (opBoot' env st),
                  lastInstructionPointer' := 0\<rparr>, w))"
  using assms by (simp add: reset_def rng_or_zero_absent Flags_defs Let_def)

lemma demo_env_simps [simp]:
  "bus_read demo_env = ram_read" "bus_write demo_env = ram_write" "rng_int demo_env = None"
  "opBoot' demo_env = op_boot" "opNmi' demo_env = op_interrupt 0xfffa"
  "opIrq' demo_env = op_interrupt 0xfffe"
  "operations' demo_env = [0xea \<mapsto> op_nop, 0x78 \<mapsto> op_sei, 0x48 \<mapsto> op_pha]"
  "invalidInstructionCallback' demo_env = None"
  by (simp_all add: demo_env_def)

subsection \<open>Reset\<close>

text \<open>
  C1, as stated: after \<open>reset()\<close> without a random generator the flag byte is \<open>0x24\<close>,
  exactly I and E. The code also ORs in \<open>Flags.b\<close>: on the example driver the flag byte is
  \<open>0x34\<close>, with B set.
\<close>

theorem reset_flags_counterexample:
  "rng_int demo_env = None \<and>
   st_flags (state (fst (reset demo_env demo_cpu demo_world))) = 0x34 \<and>
   st_flags (state (fst (reset demo_env demo_cpu demo_world))) \<noteq> 0x24 \<and>
   st_flags (state (fst (reset demo_env demo_cpu demo_world))) AND Flags_b \<noteq> 0"
  by (simp add: reset_absent Let_def Flags_defs)

text \<open>
  C1, amended: after \<open>reset()\<close> on a driver without a random generator, \<open>a = x = y = 0\<close>,
  \<open>s = 0xFD\<close>, the flag byte is \<open>0x34\<close> (exactly I, E and B set), and the \<open>irq\<close> and \<open>nmi\<close>
  latches, the two pending latches and the halt flag are cleared.
\<close>

theorem reset_without_rng:
  assumes "rng_int env = None" and "reset env d w = (d', w')"
  shows "st_a (state d') = 0 \<and> st_x (state d') = 0 \<and> st_y (state d') = 0 \<and>
         st_s (state d') = 0xfd \<and>
         st_flags (state d') = 0x34 \<and> st_flags (state d') = Flags_i OR Flags_e OR Flags_b \<and>
         \<not> st_irq (state d') \<and> \<not> st_nmi (state d') \<and>
         \<not> interruptPending' d' \<and> \<not> nmiPending' d' \<and> \<not> halt' d'"
  using assms by (auto simp add: reset_absent Let_def Flags_defs)

theorem reset_without_rng_witness:
  "rng_int demo_env = None \<and>
   (let d' = fst (reset demo_env (halt (nmi demo_cpu)) demo_world)
    in st_a (state d') = 0 \<and> st_x (state d') = 0 \<and> st_y (state d') = 0 \<and>
       st_s (state d') = 0xfd \<and> st_flags (state d') = 0x34 \<and>
       \<not> st_irq (state d') \<and> \<not> st_nmi (state d') \<and>
       \<not> interruptPending' d' \<and> \<not> nmiPending' d' \<and> \<not> halt' d')"
  using reset_without_rng [of demo_env "halt (nmi demo_cpu)" demo_world
      "fst (reset demo_env (halt (nmi demo_cpu)) demo_world)"
      "snd (reset demo_env (halt (nmi demo_cpu)) demo_world)"]
  by (simp add: Let_def)

subsection \<open>The poll step\<close>

text \<open>
  C4: the poll step clears \<open>state.irq\<close>; if \<open>nmiPending\<close> is latched it sets \<open>state.nmi\<close> and
  clears the latch, whatever the flag I; otherwise \<open>state.irq\<close> becomes true exactly when the
  line \<open>irqPending\<close> is asserted, no NMI is in flight and I is clear. Nothing else changes.
  Hence with I set the line has no effect (raising it changes nothing but the line
  itself), and with the line low an IRQ observed by an earlier poll is cancelled.
\<close>

theorem poll_step:
  "pollInterrupts' d w =
     (d\<lparr>state := (state d)
           \<lparr>st_irq := \<not> nmiPending' d \<and> interruptPending' d \<and> \<not> st_nmi (state d)
                        \<and> st_flags (state d) AND Flags_i = 0,
            st_nmi := nmiPending' d \<or> st_nmi (state d)\<rparr>,
        nmiPending' := False\<rparr>,
      w\<lparr>trace := trace w @ [Poll]\<rparr>)
   \<and> (st_flags (state d) AND Flags_i \<noteq> 0 \<longrightarrow>
        \<not> st_irq (state (fst (pollInterrupts' d w))) \<and>
        fst (pollInterrupts' (setInterrupt True d) w)
          = setInterrupt True (fst (pollInterrupts' (setInterrupt False d) w)))
   \<and> (\<not> interruptPending' d \<longrightarrow> \<not> st_irq (state (fst (pollInterrupts' d w))))"
  by (cases d) (auto simp add: pollInterrupts'_def setInterrupt_def Let_def)

theorem poll_step_witness:
  "st_flags (state (demo_cpu\<lparr>state := (state demo_cpu)\<lparr>st_flags := 0x24, st_irq := True\<rparr>\<rparr>)) AND Flags_i \<noteq> 0 \<and>
   \<not> interruptPending' (demo_cpu\<lparr>state := (state demo_cpu)\<lparr>st_flags := 0x24, st_irq := True\<rparr>\<rparr>) \<and>
   \<not> st_irq (state (fst (pollInterrupts' (demo_cpu\<lparr>state := (state demo_cpu)\<lparr>st_flags := 0x24, st_irq := True\<rparr>\<rparr>) demo_world)))"
  using poll_step [of "demo_cpu\<lparr>state := (state demo_cpu)\<lparr>st_flags := 0x24, st_irq := True\<rparr>\<rparr>" demo_world]
  by (simp add: demo_cpu_def Flags_defs)


subsection \<open>One cycle, step by step\<close>

lemma pollInterrupts'_eq:
  "pollInterrupts' d w =
     (d\<lparr>state := (state d)
           \<lparr>st_irq := \<not> nmiPending' d \<and> interruptPending' d \<and> \<not> st_nmi (state d)
                        \<and> st_flags (state d) AND Flags_i = 0,
            st_nmi := nmiPending' d \<or> st_nmi (state d)\<rparr>,
        nmiPending' := False\<rparr>,
      w\<lparr>trace := trace w @ [Poll]\<rparr>)"
  by (cases d) (auto simp add: pollInterrupts'_def Let_def)

text \<open>The driver and the world as \<open>_fetch\<close> and \<open>cycle\<close> see them after an optional poll.\<close>

lemma advance_eq:
  "advance r v d w =
     (let dp = (if pollInterrupts r
                then (fst (pollInterrupts' d w))\<lparr>pollInterruptsAfterLastInstruction' := False\<rparr>
                else d);
          nxt = fst (nextStep r False v (state dp));
          st = snd (nextStep r False v (state dp))
      in (dp\<lparr>state := st, lastResult' := nxt,
             executionState := (if nxt = None then fetch else executionState d)\<rparr>,
          w\<lparr>trace := trace w @ (if pollInterrupts r then [Poll] else [])\<rparr>))"
  by (cases d; cases "pollInterrupts r")
    (auto simp add: advance_def pollInterrupts'_eq Let_def split: prod.splits)

lemma fetch'_eq:
  "fetch' env d w =
     (let dp = (if pollInterruptsAfterLastInstruction' d then fst (pollInterrupts' d w) else d);
          pc = st_p (state d);
          opcode = fst (bus_read env pc (ext w));
          w2 = w\<lparr>ext := snd (bus_read env pc (ext w)),
                 trace := trace w @ (if pollInterruptsAfterLastInstruction' d then [Poll] else [])
                            @ [BusRead pc]\<rparr>;
          d2 = dp\<lparr>lastInstructionPointer' := pc\<rparr>
      in if st_nmi (state dp)
         then (d2\<lparr>pollInterruptsAfterLastInstruction' := False, executionState := execute,
                  lastResult' := Some (opNmi' env (state dp))\<rparr>, w2)
         else if st_irq (state dp)
         then (d2\<lparr>pollInterruptsAfterLastInstruction' := False, executionState := execute,
                  lastResult' := Some (opIrq' env (state dp))\<rparr>, w2)
         else (let d3 = d2\<lparr>state := (state dp)\<lparr>st_p := (pc + 1) AND 0xffff\<rparr>,
                            pollInterruptsAfterLastInstruction' := True\<rparr>
               in case operations' env opcode of
                    None \<Rightarrow> (case invalidInstructionCallback' env of
                                Some callback \<Rightarrow> (callback d3, w2) | None \<Rightarrow> (d3, w2))
                  | Some m \<Rightarrow> (d3\<lparr>executionState := execute,
                                  lastResult' := Some (m (state d3))\<rparr>, w2)))"
  by (cases d) (auto simp add: fetch'_def pollInterrupts'_eq Let_def split: prod.splits option.splits)


lemma cycle_eq:
  "cycle env d w =
     (if suspended d then Inr (d, w)
      else if executionState d = fetch then Inr (fetch' env d w)
      else case lastResult' d of
             None \<Rightarrow> Inl null_dereference
           | Some r \<Rightarrow>
               (case cycleType r of
                  read_cycle \<Rightarrow>
                    Inr (advance r (fst (bus_read env (address r) (ext w))) d
                           (w\<lparr>ext := snd (bus_read env (address r) (ext w)),
                              trace := trace w @ [BusRead (address r)]\<rparr>))
                | write_cycle \<Rightarrow>
                    Inr (advance r (val r) d
                           (w\<lparr>ext := bus_write env (address r) (val r) (ext w),
                              trace := trace w @ [BusWrite (address r) (val r)]\<rparr>))
                | invalid_cycle n \<Rightarrow> Inl invalid_cycle_type))"
  unfolding cycle_def suspended_def
  by (simp add: Let_def split: prod.splits option.splits CycleType.splits)

lemma cycle_suspended: "suspended d \<Longrightarrow> cycle env d w = Inr (d, w)"
  by (simp add: cycle_eq)

lemma cycle_fetch:
  "\<not> suspended d \<Longrightarrow> executionState d = fetch \<Longrightarrow> cycle env d w = Inr (fetch' env d w)"
  by (simp add: cycle_eq)

lemma cycle_read:
  "\<not> suspended d \<Longrightarrow> executionState d \<noteq> fetch \<Longrightarrow> lastResult' d = Some r \<Longrightarrow>
   cycleType r = read_cycle \<Longrightarrow>
   cycle env d w =
     Inr (advance r (fst (bus_read env (address r) (ext w))) d
            (w\<lparr>ext := snd (bus_read env (address r) (ext w)),
               trace := trace w @ [BusRead (address r)]\<rparr>))"
  by (simp add: cycle_eq)

lemma cycle_write:
  "executionState d \<noteq> fetch \<Longrightarrow> lastResult' d = Some r \<Longrightarrow> cycleType r = write_cycle \<Longrightarrow>
   cycle env d w =
     Inr (advance r (val r) d
            (w\<lparr>ext := bus_write env (address r) (val r) (ext w),
               trace := trace w @ [BusWrite (address r) (val r)]\<rparr>))"
  by (simp add: cycle_eq suspended_def)

lemma advance_trace:
  "trace (snd (advance r v d w)) = trace w @ (if pollInterrupts r then [Poll] else [])"
  by (simp add: advance_eq Let_def)

lemma advance_ext: "ext (snd (advance r v d w)) = ext w"
  by (simp add: advance_eq Let_def)

lemma fetch'_trace:
  "trace (snd (fetch' env d w)) =
     trace w @ (if pollInterruptsAfterLastInstruction' d then [Poll] else [])
       @ [BusRead (st_p (state d))]"
  by (simp add: fetch'_eq Let_def split: option.splits)

subsection \<open>The phase and the pending result\<close>

lemma reset_phase_consistent: "phase_consistent (fst (reset env d w))"
  by (simp add: reset_def phase_consistent_def Let_def split: prod.splits)

lemma advance_phase_consistent:
  "executionState d \<noteq> fetch \<Longrightarrow> phase_consistent (fst (advance r v d w))"
  by (simp add: advance_eq phase_consistent_def Let_def)

lemma fetch'_phase_consistent:
  assumes "phase_consistent d"
    and "\<forall>cb c. invalidInstructionCallback' env = Some cb \<longrightarrow> phase_consistent c
           \<longrightarrow> phase_consistent (cb c)"
  shows "phase_consistent (fst (fetch' env d w))"
proof -
  have *: "phase_consistent (c\<lparr>state := st, lastInstructionPointer' := q,
                                pollInterruptsAfterLastInstruction' := b\<rparr>)"
    if "phase_consistent c" for c st q b
    using that by (simp add: phase_consistent_def)
  have p: "phase_consistent (fst (pollInterrupts' d w))"
    using assms(1) by (simp add: pollInterrupts'_eq phase_consistent_def)
  show ?thesis
    using assms p
    by (auto simp add: fetch'_eq Let_def phase_consistent_def split: option.splits)
qed

lemma cycle_phase_consistent:
  fixes w :: "'w World"
  assumes "phase_consistent d"
    and "\<forall>cb c. invalidInstructionCallback' env = Some cb \<longrightarrow> phase_consistent c
           \<longrightarrow> phase_consistent (cb c)"
    and "cycle env d w = Inr (d', w')"
  shows "phase_consistent d'"
proof (cases "suspended d")
  case True
  then show ?thesis using assms by (simp add: cycle_suspended)
next
  case False
  show ?thesis
  proof (cases "executionState d = fetch")
    case True
    then have "d' = fst (fetch' env d w)"
      using assms(3) False by (simp add: cycle_fetch)
    then show ?thesis using fetch'_phase_consistent [OF assms(1,2)] by simp
  next
    case nf: False
    have "phase_consistent d'" if "advance r v d w0 = (d', w')" for r v and w0 :: "'w World"
      using advance_phase_consistent [OF nf, of r v w0] that by simp
    then show ?thesis
      using assms(3) False nf
      by (auto simp add: cycle_eq split: option.splits CycleType.splits)
  qed
qed


lemma call_phase_consistent:
  assumes "\<forall>cb c. invalidInstructionCallback' env = Some cb \<longrightarrow> phase_consistent c
             \<longrightarrow> phase_consistent (cb c)"
    and "phase_consistent (fst dw)" and "call env c dw = Inr dw'"
  shows "phase_consistent (fst dw')"
proof (cases dw)
  case (Pair d w)
  then have ok: "phase_consistent d" using assms(2) by simp
  show ?thesis
  proof (cases c)
    case Cycle
    then show ?thesis
      using cycle_phase_consistent [OF ok assms(1), of w "fst dw'" "snd dw'"] assms(3) Pair
      by simp
  next
    case Reset
    then show ?thesis using reset_phase_consistent [of env d w] assms(3) Pair by auto
  qed (use ok assms(3) Pair in \<open>auto simp add: phase_consistent_def setInterrupt_def nmi_def
         halt_def resume_def\<close>)
qed

lemma calls_phase_consistent:
  assumes "\<forall>cb c. invalidInstructionCallback' env = Some cb \<longrightarrow> phase_consistent c
             \<longrightarrow> phase_consistent (cb c)"
  shows "phase_consistent (fst dw) \<Longrightarrow> calls env cs dw = Inr dw' \<Longrightarrow> phase_consistent (fst dw')"
proof (induction cs arbitrary: dw)
  case Nil
  then show ?case by simp
next
  case (Cons c cs)
  from Cons.prems(2) obtain dw1 where c1: "call env c dw = Inr dw1"
    and r: "calls env cs dw1 = Inr dw'"
    by (auto split: sum.splits)
  show ?case
    using Cons.IH [OF call_phase_consistent [OF assms Cons.prems(1) c1] r] .
qed

lemma reachable_phase_consistent:
  assumes "\<forall>cb c. invalidInstructionCallback' env = Some cb \<longrightarrow> phase_consistent c
             \<longrightarrow> phase_consistent (cb c)"
    and "calls env cs (new_StateMachineCpu env w) = Inr (d', w')"
  shows "phase_consistent d'"
  using calls_phase_consistent [OF assms(1) _ assms(2)]
  by (simp add: new_StateMachineCpu_def reset_phase_consistent)

lemma demo_cpu_simps [simp]:
  "state demo_cpu = \<lparr>st_a = 0, st_x = 0, st_y = 0, st_s = 0xfd, st_p = 0x1000, st_flags = 0x20,
                      st_irq = False, st_nmi = False\<rparr>"
  "executionState demo_cpu = fetch" "lastResult' demo_cpu = None"
  "interruptPending' demo_cpu = False" "nmiPending' demo_cpu = False" "halt' demo_cpu = False"
  "pollInterruptsAfterLastInstruction' demo_cpu = False" "lastInstructionPointer' demo_cpu = 0"
  by (simp_all add: demo_cpu_def)

lemma demo_world_simps [simp]:
  "ext demo_world = (\<lambda>a. 0xea)(0x1000 := 0x02, 0x2000 := 0x78)" "trace demo_world = []"
  by (simp_all add: demo_world_def)

subsection \<open>Halt\<close>

text \<open>
  C6: while the driver is halted, \<open>cycle()\<close> never reads from the bus. If the pending result
  is a read, or there is no pending result (the next step is an opcode fetch), \<open>cycle()\<close>
  returns at once with no bus action and no change of state; if the pending result is a
  write, the write is still issued. The driver is taken in a state where the phase is
  \<open>fetch\<close> exactly when no result is pending, as in every state it reaches.
\<close>

theorem halted_cycle:
  assumes "halt' d" and "phase_consistent d"
  shows "(case lastResult' d of
            None \<Rightarrow> cycle env d w = Inr (d, w)
          | Some r \<Rightarrow>
              (cycleType r = read_cycle \<longrightarrow> cycle env d w = Inr (d, w)) \<and>
              (cycleType r = write_cycle \<longrightarrow>
                 (\<exists>d' w'. cycle env d w = Inr (d', w') \<and>
                    bus_ops (drop (length (trace w)) (trace w'))
                      = [BusWrite (address r) (val r)] \<and>
                    ext w' = bus_write env (address r) (val r) (ext w))))
         \<and> (\<forall>d' w'. cycle env d w = Inr (d', w') \<longrightarrow>
               (\<exists>evs. trace w' = trace w @ evs \<and> (\<forall>a. BusRead a \<notin> set evs)))"
proof (cases "lastResult' d")
  case None
  then have "suspended d" using assms by (simp add: suspended_def)
  then show ?thesis using None by (simp add: cycle_suspended)
next
  case (Some r)
  then have nf: "executionState d \<noteq> fetch"
    using assms(2) by (simp add: phase_consistent_def)
  show ?thesis
  proof (cases "cycleType r")
    case read_cycle
    then have "suspended d" using assms Some by (simp add: suspended_def)
    then show ?thesis using Some read_cycle by (simp add: cycle_suspended)
  next
    case write_cycle
    let ?w1 = "w\<lparr>ext := bus_write env (address r) (val r) (ext w),
                  trace := trace w @ [BusWrite (address r) (val r)]\<rparr>"
    have c: "cycle env d w = Inr (advance r (val r) d ?w1)"
      using cycle_write [OF nf Some write_cycle] .
    have t: "trace (snd (advance r (val r) d ?w1))
               = trace w @ BusWrite (address r) (val r) # (if pollInterrupts r then [Poll] else [])"
      by (simp add: advance_trace)
    have e: "ext (snd (advance r (val r) d ?w1)) = bus_write env (address r) (val r) (ext w)"
      by (simp add: advance_ext)
    have "\<exists>d' w'. cycle env d w = Inr (d', w') \<and>
            bus_ops (drop (length (trace w)) (trace w')) = [BusWrite (address r) (val r)] \<and>
            ext w' = bus_write env (address r) (val r) (ext w)"
      using c t e by (cases "advance r (val r) d ?w1") (simp add: bus_ops_def)
    moreover have "\<exists>evs. trace w' = trace w @ evs \<and> (\<forall>a. BusRead a \<notin> set evs)"
      if "cycle env d w = Inr (d', w')" for d' w'
      using that c t by (cases "advance r (val r) d ?w1") auto
    ultimately show ?thesis using Some write_cycle by simp
  next
    case (invalid_cycle n)
    then have "cycle env d w = Inl invalid_cycle_type"
      using Some nf by (simp add: cycle_eq suspended_def)
    then show ?thesis using Some invalid_cycle by simp
  qed
qed

theorem halted_cycle_witness:
  "halt' (halt demo_cpu) \<and> phase_consistent (halt demo_cpu) \<and>
   lastResult' (halt demo_cpu) = None \<and>
   cycle demo_env (halt demo_cpu) demo_world = Inr (halt demo_cpu, demo_world) \<and>
   halt' (halt demo_entry) \<and> phase_consistent (halt demo_entry) \<and>
   (\<exists>d' w'. cycle demo_env (halt demo_entry) demo_world = Inr (d', w') \<and>
      bus_ops (drop (length (trace demo_world)) (trace w')) = [BusWrite 0x01fd 0x12] \<and>
      ext w' = ram_write 0x01fd 0x12 (ext demo_world))"
  using halted_cycle [of "halt demo_cpu" demo_env demo_world]
    halted_cycle [of "halt demo_entry" demo_env demo_world]
  by (simp add: halt_def demo_entry_def phase_consistent_def op_interrupt_def)

subsection \<open>Bus operations per cycle\<close>

lemma bus_ops_append [simp]: "bus_ops (xs @ ys) = bus_ops xs @ bus_ops ys"
  by (simp add: bus_ops_def)

lemma bus_ops_simps [simp]:
  "bus_ops [] = []" "bus_ops (Poll # evs) = bus_ops evs"
  "bus_ops (BusRead a # evs) = BusRead a # bus_ops evs"
  "bus_ops (BusWrite a v # evs) = BusWrite a v # bus_ops evs"
  by (simp_all add: bus_ops_def)

text \<open>
  C7: every call of \<open>cycle()\<close> performs at most one bus operation, and exactly one when the
  driver is not halted: in phase \<open>fetch\<close> one read at \<open>p\<close>, otherwise the one read or write
  that the pending result describes. The driver is taken in a state it can reach: the
  phase is \<open>fetch\<close> exactly when no result is pending, and a pending result is a read or a
  write.
\<close>

theorem one_bus_operation:
  assumes "phase_consistent d"
    and "\<forall>r. lastResult' d = Some r \<longrightarrow> cycleType r = read_cycle \<or> cycleType r = write_cycle"
  shows "\<exists>d' w' evs. cycle env d w = Inr (d', w') \<and> trace w' = trace w @ evs \<and>
           length (bus_ops evs) \<le> 1 \<and>
           (\<not> halt' d \<longrightarrow>
              (case lastResult' d of
                 None \<Rightarrow> executionState d = fetch \<and> bus_ops evs = [BusRead (st_p (state d))]
               | Some r \<Rightarrow>
                   executionState d \<noteq> fetch \<and>
                   bus_ops evs = [if cycleType r = read_cycle then BusRead (address r)
                                  else BusWrite (address r) (val r)]))"
proof (cases "suspended d")
  case True
  then have "halt' d" by (simp add: suspended_def)
  then show ?thesis using True by (simp add: cycle_suspended)
next
  case ns: False
  show ?thesis
  proof (cases "lastResult' d")
    case None
    then have f: "executionState d = fetch"
      using assms(1) by (simp add: phase_consistent_def)
    have c: "cycle env d w = Inr (fetch' env d w)"
      using cycle_fetch [OF ns f] .
    show ?thesis
      using c None f fetch'_trace [of env d w]
      by (cases "fetch' env d w") auto
  next
    case (Some r)
    then have nf: "executionState d \<noteq> fetch"
      using assms(1) by (simp add: phase_consistent_def)
    from assms(2) Some consider "cycleType r = read_cycle" | "cycleType r = write_cycle"
      by blast
    then show ?thesis
    proof cases
      case 1
      let ?v = "fst (bus_read env (address r) (ext w))"
      let ?w1 = "w\<lparr>ext := snd (bus_read env (address r) (ext w)),
                    trace := trace w @ [BusRead (address r)]\<rparr>"
      have c: "cycle env d w = Inr (advance r ?v d ?w1)"
        using cycle_read [OF ns nf Some 1] .
      show ?thesis
        using c Some nf 1 advance_trace [of r ?v d ?w1]
        by (cases "advance r ?v d ?w1") auto
    next
      case 2
      let ?w1 = "w\<lparr>ext := bus_write env (address r) (val r) (ext w),
                    trace := trace w @ [BusWrite (address r) (val r)]\<rparr>"
      have c: "cycle env d w = Inr (advance r (val r) d ?w1)"
        using cycle_write [OF nf Some 2] .
      show ?thesis
        using c Some nf 2 advance_trace [of r "val r" d ?w1]
        by (cases "advance r (val r) d ?w1") auto
    qed
  qed
qed

lemma op_interrupt_sel [simp]:
  "cycleType (op_interrupt vector s) = write_cycle"
  "address (op_interrupt vector s) = 0x0100 OR st_s s"
  "val (op_interrupt vector s) = drop_bit 8 (st_p s)"
  "pollInterrupts (op_interrupt vector s) = False"
  by (simp_all add: op_interrupt_def)

theorem one_bus_operation_witness:
  "phase_consistent demo_cpu \<and> \<not> halt' demo_cpu \<and> lastResult' demo_cpu = None \<and>
   (\<exists>d' w' evs. cycle demo_env demo_cpu demo_world = Inr (d', w') \<and>
      trace w' = trace demo_world @ evs \<and> bus_ops evs = [BusRead 0x1000]) \<and>
   phase_consistent demo_entry \<and> \<not> halt' demo_entry \<and>
   (\<exists>d' w' evs. cycle demo_env demo_entry demo_world = Inr (d', w') \<and>
      trace w' = trace demo_world @ evs \<and> bus_ops evs = [BusWrite 0x01fd 0x12])"
  using one_bus_operation [of demo_cpu demo_env demo_world]
    one_bus_operation [of demo_entry demo_env demo_world]
  by (auto simp add: demo_entry_def phase_consistent_def)

subsection \<open>Writes while halted\<close>

lemma advance_halt: "halt' (fst (advance r v d w)) = halt' d"
  by (simp add: advance_eq pollInterrupts'_eq Let_def)

text \<open>
  C10: halting does not freeze the instruction before a read cycle is reached. While
  halted, a \<open>cycle()\<close> that services a pending write also calls its continuation: the
  pending result and the register file become what \<open>nextStep\<close>, called on the result
  with its flag clear, returns (after the poll step, if the result asked for it), the
  driver stays halted, and the phase becomes
  \<open>fetch\<close> when the continuation returns \<open>null\<close>. The next call is frozen (returns
  without any change) when the new step is a read or a fetch; when it is a write again the
  phase is still not \<open>fetch\<close>, so the same holds for it.
\<close>

theorem halted_write_advances:
  assumes "halt' d" and "executionState d \<noteq> fetch" and "lastResult' d = Some r"
    and "cycleType r = write_cycle"
  shows "\<exists>d' w'. cycle env d w = Inr (d', w') \<and> halt' d' \<and>
           (let dp = (if pollInterrupts r then fst (pollInterrupts' d w) else d)
            in lastResult' d' = fst (nextStep r False (val r) (state dp)) \<and>
               state d' = snd (nextStep r False (val r) (state dp))) \<and>
           (case lastResult' d' of
              None \<Rightarrow> executionState d' = fetch \<and> cycle env d' w' = Inr (d', w')
            | Some r' \<Rightarrow>
                executionState d' = executionState d \<and>
                (cycleType r' = read_cycle \<longrightarrow> cycle env d' w' = Inr (d', w')))"
proof -
  let ?w1 = "w\<lparr>ext := bus_write env (address r) (val r) (ext w),
                trace := trace w @ [BusWrite (address r) (val r)]\<rparr>"
  let ?dp = "if pollInterrupts r then fst (pollInterrupts' d w) else d"
  obtain d' w' where a: "advance r (val r) d ?w1 = (d', w')"
    by (cases "advance r (val r) d ?w1")
  have c: "cycle env d w = Inr (d', w')"
    using cycle_write [OF assms(2,3,4), of env w] a by simp
  have h: "halt' d'"
    using assms(1) advance_halt [of r "val r" d ?w1] a by simp
  have "d' = fst (advance r (val r) d ?w1)"
    using a by simp
  then have n: "lastResult' d' = fst (nextStep r False (val r) (state ?dp))"
    and s: "state d' = snd (nextStep r False (val r) (state ?dp))"
    and e: "executionState d' = (if lastResult' d' = None then fetch else executionState d)"
    by (simp_all add: advance_eq pollInterrupts'_eq Let_def)
  have f: "cycle env d' w' = Inr (d', w')"
    if "case lastResult' d' of None \<Rightarrow> True | Some r' \<Rightarrow> cycleType r' = read_cycle"
    using that h by (simp add: cycle_suspended suspended_def)
  have p1: "let dp = ?dp
            in lastResult' d' = fst (nextStep r False (val r) (state dp)) \<and>
               state d' = snd (nextStep r False (val r) (state dp))"
    using n s by (simp add: Let_def)
  have p2: "case lastResult' d' of
              None \<Rightarrow> executionState d' = fetch \<and> cycle env d' w' = Inr (d', w')
            | Some r' \<Rightarrow>
                executionState d' = executionState d \<and>
                (cycleType r' = read_cycle \<longrightarrow> cycle env d' w' = Inr (d', w'))"
    using e f by (cases "lastResult' d'") simp_all
  show ?thesis using c h p1 p2 by blast
qed

lemma op_pha_push_sel [simp]:
  "cycleType (op_pha_push s) = write_cycle"
  "address (op_pha_push s) = 0x0100 OR st_s s"
  "val (op_pha_push s) = st_a s"
  "pollInterrupts (op_pha_push s) = False"
  "nextStep (op_pha_push s) = (\<lambda>f v s1. (None, s1\<lparr>st_s := (st_s s1 + 0xff) AND 0xff\<rparr>))"
  by (simp_all add: op_pha_push_def)

theorem halted_write_advances_witness:
  "halt' (halt demo_push) \<and> executionState (halt demo_push) \<noteq> fetch \<and>
   lastResult' (halt demo_push) = Some (op_pha_push (state demo_push)) \<and>
   cycleType (op_pha_push (state demo_push)) = write_cycle \<and>
   (\<exists>d' w'. cycle demo_env (halt demo_push) demo_world = Inr (d', w') \<and> halt' d' \<and>
      st_s (state (halt demo_push)) = 0xfd \<and> st_s (state d') = 0xfc \<and>
      lastResult' d' = None \<and> executionState d' = fetch \<and>
      cycle demo_env d' w' = Inr (d', w')) \<and>
   halt' (halt demo_entry) \<and>
   (\<exists>d' w' r'. cycle demo_env (halt demo_entry) demo_world = Inr (d', w') \<and> halt' d' \<and>
      st_s (state d') = 0xfc \<and> lastResult' d' = Some r' \<and> cycleType r' = write_cycle \<and>
      executionState d' = execute)"
  using halted_write_advances [of "halt demo_push" "op_pha_push (state demo_push)" demo_env demo_world]
    halted_write_advances [of "halt demo_entry" "op_interrupt 0xfffe (state demo_entry)" demo_env demo_world]
  by (auto simp add: halt_def demo_push_def demo_entry_def op_interrupt_def Let_def)

subsection \<open>The last instruction pointer\<close>

lemma advance_lip:
  "lastInstructionPointer' (fst (advance r v d w)) = lastInstructionPointer' d"
  by (simp add: advance_eq pollInterrupts'_eq Let_def)

lemma fetch'_lip:
  assumes "\<forall>cb c. invalidInstructionCallback' env = Some cb \<longrightarrow>
             lastInstructionPointer' (cb c) = lastInstructionPointer' c"
  shows "lastInstructionPointer' (fst (fetch' env d w)) = st_p (state d)"
  using assms by (simp add: fetch'_eq pollInterrupts'_eq Let_def split: option.splits)

lemma cycle_lip:
  assumes "\<forall>cb c. invalidInstructionCallback' env = Some cb \<longrightarrow>
             lastInstructionPointer' (cb c) = lastInstructionPointer' c"
    and "cycle env d w = Inr (d', w')"
  shows "lastInstructionPointer' d' =
           (if fetches d then st_p (state d) else lastInstructionPointer' d)"
proof (cases "suspended d")
  case True
  then show ?thesis using assms(2) by (simp add: cycle_suspended fetches_def)
next
  case ns: False
  show ?thesis
  proof (cases "executionState d = fetch")
    case True
    then have "d' = fst (fetch' env d w)"
      using assms(2) ns by (simp add: cycle_fetch)
    then show ?thesis using fetch'_lip [OF assms(1)] True ns by (simp add: fetches_def)
  next
    case nf: False
    have "lastInstructionPointer' d' = lastInstructionPointer' d"
      if "advance r v d w0 = (d', w')" for r v and w0 :: "'a World"
      using advance_lip [of r v d w0] that by simp
    then show ?thesis
      using assms(2) ns nf
      by (auto simp add: cycle_eq fetches_def split: option.splits CycleType.splits)
  qed
qed

lemma reset_lip: "lastInstructionPointer' (fst (reset env d w)) = 0"
  by (simp add: reset_def Let_def split: prod.splits)

lemma call_lip:
  assumes "\<forall>cb c. invalidInstructionCallback' env = Some cb \<longrightarrow>
             lastInstructionPointer' (cb c) = lastInstructionPointer' c"
    and "call env c dw = Inr dw'"
  shows "lastInstructionPointer' (fst dw') =
           (case c of
              Cycle \<Rightarrow> if fetches (fst dw) then st_p (state (fst dw))
                       else lastInstructionPointer' (fst dw)
            | Reset \<Rightarrow> 0
            | _ \<Rightarrow> lastInstructionPointer' (fst dw))"
proof (cases dw)
  case (Pair d w)
  show ?thesis
  proof (cases c)
    case Cycle
    then show ?thesis
      using assms Pair cycle_lip [OF assms(1), of d w "fst dw'" "snd dw'"] by simp
  next
    case Reset
    then show ?thesis using assms(2) Pair reset_lip [of env d w] by auto
  qed (use assms(2) Pair in \<open>auto simp add: setInterrupt_def nmi_def halt_def resume_def\<close>)
qed

lemma calls_lip:
  assumes "\<forall>cb c. invalidInstructionCallback' env = Some cb \<longrightarrow>
             lastInstructionPointer' (cb c) = lastInstructionPointer' c"
  shows "calls env cs dw = Inr dw' \<Longrightarrow>
         lastInstructionPointer' (fst dw') =
           start_of_last_fetch env cs dw (lastInstructionPointer' (fst dw))"
proof (induction cs arbitrary: dw)
  case Nil
  then show ?case by simp
next
  case (Cons c cs)
  then obtain dw1 where c1: "call env c dw = Inr dw1" and r: "calls env cs dw1 = Inr dw'"
    by (auto split: sum.splits)
  have "lastInstructionPointer' (fst dw') =
          start_of_last_fetch env cs dw1 (lastInstructionPointer' (fst dw1))"
    using Cons.IH [OF r] .
  then show ?case
    using c1 call_lip [OF assms c1] by (simp split: Call.splits)
qed

text \<open>
  C8: for every history of calls made to a freshly constructed driver,
  \<open>getLastInstructionPointer()\<close> returns the value \<open>p\<close> had at the start of the most recent
  fetch cycle, before that fetch incremented \<open>p\<close> or dispatched an interrupt, and \<open>0\<close>
  after a reset as long as no fetch followed. The field is private to the driver, so an
  installed callback is taken not to change it.
\<close>

theorem last_instruction_pointer:
  assumes "\<forall>cb c. invalidInstructionCallback' env = Some cb \<longrightarrow>
             lastInstructionPointer' (cb c) = lastInstructionPointer' c"
    and "calls env cs (new_StateMachineCpu env w) = Inr (d', w')"
  shows "getLastInstructionPointer (fst (new_StateMachineCpu env w)) = 0 \<and>
         getLastInstructionPointer d' = start_of_last_fetch env cs (new_StateMachineCpu env w) 0"
proof -
  have z: "lastInstructionPointer' (fst (new_StateMachineCpu env w)) = 0"
    by (simp add: new_StateMachineCpu_def reset_lip)
  show ?thesis
    using calls_lip [OF assms(1,2)] z by (simp add: getLastInstructionPointer_def)
qed


lemma cycles_numeral:
  "cycles (numeral k) env d w =
     (case cycle env d w of Inl e \<Rightarrow> Inl e | Inr (d', w') \<Rightarrow> cycles (pred_numeral k) env d' w')"
  by (simp add: numeral_eq_Suc)

lemmas demo_run_simps =
  new_StateMachineCpu_def reset_absent new_State_def Let_def cycle_eq suspended_def fetches_def
  advance_eq fetch'_eq pollInterrupts'_eq ram_read_def ram_write_def Flags_defs
  op_boot_def op_nop_def op_sei_def op_pha_def op_pha_push_def op_interrupt_def
  setInterrupt_def nmi_def halt_def resume_def

theorem last_instruction_pointer_witness:
  "invalidInstructionCallback' demo_env = None \<and>
   (\<exists>d' w'. calls demo_env
               [Cycle, Cycle, Cycle, Cycle, Cycle, Cycle, Cycle, Cycle, Halt, Cycle, Resume,
                Cycle, Cycle]
               (new_StateMachineCpu demo_env demo_world) = Inr (d', w') \<and>
            st_p (state d') = 0xeaec \<and>
            getLastInstructionPointer d' = 0xeaeb)"
proof -
  let ?cs = "[Cycle, Cycle, Cycle, Cycle, Cycle, Cycle, Cycle, Cycle, Halt, Cycle, Resume,
              Cycle, Cycle]"
  have cb: "\<forall>cb c. invalidInstructionCallback' demo_env = Some cb \<longrightarrow>
              lastInstructionPointer' (cb c) = lastInstructionPointer' c"
    by simp
  have "\<exists>d' w'. calls demo_env ?cs (new_StateMachineCpu demo_env demo_world) = Inr (d', w')
          \<and> st_p (state d') = 0xeaec"
    by (simp add: demo_run_simps)
  then obtain d' w' where
    run: "calls demo_env ?cs (new_StateMachineCpu demo_env demo_world) = Inr (d', w')"
    and p: "st_p (state d') = 0xeaec"
    by blast
  have h: "start_of_last_fetch demo_env ?cs (new_StateMachineCpu demo_env demo_world) 0 = 0xeaeb"
    by (simp add: demo_run_simps)
  have "getLastInstructionPointer d' = 0xeaeb"
    using last_instruction_pointer [OF cb run] h by simp
  then show ?thesis using run p by simp
qed

subsection \<open>No call throws\<close>

lemma results_ok_type: "results_ok r \<Longrightarrow> cycleType r = read_cycle \<or> cycleType r = write_cycle"
  by (erule results_ok.cases) simp

lemma results_ok_step: "results_ok r \<Longrightarrow> fst (nextStep r f v s) = Some r' \<Longrightarrow> results_ok r'"
  by (erule results_ok.cases) blast

lemma results_ok_Result:
  "results_ok (Result ct a v p k) \<longleftrightarrow>
     (ct = read_cycle \<or> ct = write_cycle) \<and>
     (\<forall>f v s r'. fst (k f v s) = Some r' \<longrightarrow> results_ok r')"
  by (subst results_ok.simps) simp

lemma reset_driver_ok:
  assumes "machines_ok env"
  shows "driver_ok (fst (reset env d w))"
  using assms
  by (simp add: reset_def driver_ok_def phase_consistent_def machines_ok_def Let_def
      split: prod.splits)

lemma advance_driver_ok:
  assumes "results_ok r" and "executionState d \<noteq> fetch"
  shows "driver_ok (fst (advance r v d w))"
proof -
  have "results_ok r'" if "lastResult' (fst (advance r v d w)) = Some r'" for r'
    using that results_ok_step [OF assms(1)]
    by (simp add: advance_eq Let_def split: if_splits)
  then show ?thesis
    using advance_phase_consistent [OF assms(2)] by (simp add: driver_ok_def)
qed

lemma fetch'_driver_ok:
  assumes "machines_ok env" and "callback_ok env" and "driver_ok d"
  shows "driver_ok (fst (fetch' env d w))"
proof -
  define dp where "dp = (if pollInterruptsAfterLastInstruction' d
                         then fst (pollInterrupts' d w) else d)"
  define d3 where "d3 = dp\<lparr>lastInstructionPointer' := st_p (state d),
                            state := (state dp)\<lparr>st_p := (st_p (state d) + 1) AND 0xffff\<rparr>,
                            pollInterruptsAfterLastInstruction' := True\<rparr>"
  define opcode where "opcode = fst (bus_read env (st_p (state d)) (ext w))"
  have start: "driver_ok (c\<lparr>executionState := execute, lastResult' := Some r\<rparr>)"
    if "results_ok r" for c r
    using that by (simp add: driver_ok_def phase_consistent_def)
  have p: "driver_ok dp"
    using assms(3) by (simp add: dp_def pollInterrupts'_eq driver_ok_def phase_consistent_def)
  then have p3: "driver_ok d3"
    by (simp add: d3_def driver_ok_def phase_consistent_def)
  have m: "results_ok (opNmi' env s)" "results_ok (opIrq' env s)"
    "operations' env oc = Some mc \<Longrightarrow> results_ok (mc s)" for s oc mc
    using assms(1) by (auto simp add: machines_ok_def)
  consider (nmi) "st_nmi (state dp)"
    | (irq) "\<not> st_nmi (state dp)" "st_irq (state dp)"
    | (op) mc where "\<not> st_nmi (state dp)" "\<not> st_irq (state dp)" "operations' env opcode = Some mc"
    | (cb) cb where "\<not> st_nmi (state dp)" "\<not> st_irq (state dp)" "operations' env opcode = None"
        "invalidInstructionCallback' env = Some cb"
    | (none) "\<not> st_nmi (state dp)" "\<not> st_irq (state dp)" "operations' env opcode = None"
        "invalidInstructionCallback' env = None"
    by (cases "operations' env opcode"; cases "invalidInstructionCallback' env") auto
  then show ?thesis
  proof cases
    case nmi
    then have "fst (fetch' env d w) =
                 dp\<lparr>lastInstructionPointer' := st_p (state d),
                    pollInterruptsAfterLastInstruction' := False,
                    executionState := execute, lastResult' := Some (opNmi' env (state dp))\<rparr>"
      by (simp add: fetch'_eq Let_def dp_def)
    then show ?thesis using m(1) by (simp add: driver_ok_def phase_consistent_def)
  next
    case irq
    then have "fst (fetch' env d w) =
                 dp\<lparr>lastInstructionPointer' := st_p (state d),
                    pollInterruptsAfterLastInstruction' := False,
                    executionState := execute, lastResult' := Some (opIrq' env (state dp))\<rparr>"
      by (simp add: fetch'_eq Let_def dp_def)
    then show ?thesis using m(2) by (simp add: driver_ok_def phase_consistent_def)
  next
    case op
    then have "fst (fetch' env d w) =
                 d3\<lparr>executionState := execute, lastResult' := Some (mc (state d3))\<rparr>"
      by (simp add: fetch'_eq Let_def dp_def d3_def opcode_def)
    then show ?thesis using m(3) [OF op(3)] by (simp add: start)
  next
    case cb
    then have "fst (fetch' env d w) = cb d3"
      by (simp add: fetch'_eq Let_def dp_def d3_def opcode_def)
    then show ?thesis using assms(2) cb(4) p3 by (simp add: callback_ok_def)
  next
    case none
    then have "fst (fetch' env d w) = d3"
      by (simp add: fetch'_eq Let_def dp_def d3_def opcode_def)
    then show ?thesis using p3 by simp
  qed
qed

lemma cycle_driver_ok:
  fixes w :: "'w World"
  assumes "machines_ok env" and "callback_ok env" and "driver_ok d"
  shows "\<exists>d' w'. cycle env d w = Inr (d', w') \<and> driver_ok d'"
proof (cases "suspended d")
  case True
  then show ?thesis using assms(3) by (simp add: cycle_suspended)
next
  case ns: False
  show ?thesis
  proof (cases "lastResult' d")
    case None
    then have f: "executionState d = fetch"
      using assms(3) by (simp add: driver_ok_def phase_consistent_def)
    have "cycle env d w = Inr (fst (fetch' env d w), snd (fetch' env d w))"
      using cycle_fetch [OF ns f] by simp
    then show ?thesis using fetch'_driver_ok [OF assms] by blast
  next
    case (Some r)
    then have nf: "executionState d \<noteq> fetch" and ok: "results_ok r"
      using assms(3) by (simp_all add: driver_ok_def phase_consistent_def)
    have "\<exists>v (w0 :: 'w World). cycle env d w = Inr (advance r v d w0)"
      using results_ok_type [OF ok] cycle_read [OF ns nf Some] cycle_write [OF nf Some]
      by metis
    then obtain v and w0 :: "'w World" where c: "cycle env d w = Inr (advance r v d w0)"
      by blast
    have "cycle env d w = Inr (fst (advance r v d w0), snd (advance r v d w0))"
      using c by simp
    then show ?thesis using advance_driver_ok [OF ok nf] by blast
  qed
qed

lemma call_driver_ok:
  assumes "machines_ok env" and "callback_ok env" and "driver_ok (fst dw)"
  shows "\<exists>dw'. call env c dw = Inr dw' \<and> driver_ok (fst dw')"
proof (cases dw)
  case (Pair d w)
  then have ok: "driver_ok d" using assms(3) by simp
  show ?thesis
  proof (cases c)
    case Cycle
    then show ?thesis using cycle_driver_ok [OF assms(1,2) ok, of w] Pair by auto
  next
    case Reset
    then show ?thesis using reset_driver_ok [OF assms(1), of d w] Pair by simp
  qed (use ok Pair in \<open>simp_all add: driver_ok_def phase_consistent_def setInterrupt_def
         nmi_def halt_def resume_def\<close>)
qed

lemma calls_driver_ok:
  assumes "machines_ok env" and "callback_ok env"
  shows "driver_ok (fst dw) \<Longrightarrow> \<exists>dw'. calls env cs dw = Inr dw' \<and> driver_ok (fst dw')"
proof (induction cs arbitrary: dw)
  case Nil
  then show ?case by simp
next
  case (Cons c cs)
  obtain dw1 where c1: "call env c dw = Inr dw1" and ok1: "driver_ok (fst dw1)"
    using call_driver_ok [OF assms Cons.prems] by blast
  show ?case using Cons.IH [OF ok1] c1 by simp
qed

text \<open>
  C9: \<open>cycle()\<close> is defined in every state the driver reaches. If every result that a
  micro-program produces has cycle type \<open>read\<close> or \<open>write\<close>, then after any sequence of
  calls made to a freshly constructed driver (none of which throws) a further \<open>cycle()\<close>
  returns: the branch that throws \<open>invalid cycle type\<close> is not reached, and neither is a
  missing pending result outside phase \<open>fetch\<close>. An installed callback is host code and is
  taken to leave the driver as a sequence of such calls could.
\<close>

theorem cycle_never_throws:
  assumes "machines_ok env" and "callback_ok env"
  shows "\<exists>d' w'. calls env cs (new_StateMachineCpu env w) = Inr (d', w') \<and>
           (\<exists>d'' w''. cycle env d' w' = Inr (d'', w''))"
proof -
  have "driver_ok (fst (new_StateMachineCpu env w))"
    by (simp add: new_StateMachineCpu_def reset_driver_ok [OF assms(1)])
  then obtain dw' where r: "calls env cs (new_StateMachineCpu env w) = Inr dw'"
    and ok: "driver_ok (fst dw')"
    using calls_driver_ok [OF assms] by blast
  obtain d' w' where dw': "dw' = (d', w')" by (cases dw')
  then have "\<exists>d'' w''. cycle env d' w' = Inr (d'', w'')"
    using cycle_driver_ok [OF assms, of d' w'] ok by auto
  then show ?thesis using r dw' by simp
qed


lemma demo_machines_ok: "machines_ok demo_env"
  by (simp add: machines_ok_def op_boot_def op_interrupt_def op_nop_def op_sei_def op_pha_def
      op_pha_push_def results_ok_Result)

lemma demo_callback_ok: "callback_ok demo_env"
  by (simp add: callback_ok_def)

theorem cycle_never_throws_witness:
  "machines_ok demo_env \<and> callback_ok demo_env \<and>
   (\<exists>d' w'. calls demo_env [Cycle, Nmi, Cycle, Halt, Cycle, Reset, SetInterrupt True, Cycle]
               (new_StateMachineCpu demo_env demo_world) = Inr (d', w') \<and>
      (\<exists>d'' w''. cycle demo_env d' w' = Inr (d'', w'')))"
  using cycle_never_throws [OF demo_machines_ok demo_callback_ok,
      of "[Cycle, Nmi, Cycle, Halt, Cycle, Reset, SetInterrupt True, Cycle]" demo_world]
    demo_machines_ok demo_callback_ok
  by simp

subsection \<open>Fetch\<close>

lemma mask_16: "n AND 0xffff = n mod 2 ^ 16" for n :: nat
  using take_bit_eq_mask [of 16 n] by (simp add: take_bit_eq_mod mask_eq_exp_minus_1)

lemma poll_keeps_p: "st_p (state (fst (pollInterrupts' d w))) = st_p (state d)"
  by (simp add: pollInterrupts'_eq)

text \<open>
  C3, as stated: in phase \<open>fetch\<close>, \<open>cycle()\<close> reads the opcode at \<open>p\<close> and starts the IRQ
  entry only if the \<open>irq\<close> latch is set and the flag I is clear; otherwise it advances \<open>p\<close>
  and dispatches through the table. The code tests the latch alone. The example driver
  fetches a SEI with the IRQ line asserted; two cycles later it is in phase \<open>fetch\<close> with
  the latch set and I set, and the next \<open>cycle()\<close> starts the IRQ entry (a write cycle) and
  leaves \<open>p\<close> alone, where the claim has it start the NOP found in the table (a read cycle)
  at \<open>p + 1\<close>. Also, a halted driver in phase \<open>fetch\<close> reads nothing.
\<close>

theorem fetch_dispatch_counterexample:
  "cycles 2 demo_env demo_before_sei demo_world
     = Inr (demo_after_sei, demo_world\<lparr>trace := [BusRead 0x2000, BusRead 0x2001, Poll]\<rparr>) \<and>
   executionState demo_after_sei = fetch \<and> \<not> st_nmi (state demo_after_sei) \<and>
   st_irq (state demo_after_sei) \<and> st_flags (state demo_after_sei) AND Flags_i \<noteq> 0 \<and>
   operations' demo_env (fst (bus_read demo_env 0x2001 (ext demo_world))) = Some op_nop \<and>
   cycle demo_env demo_after_sei (demo_world\<lparr>trace := [BusRead 0x2000, BusRead 0x2001, Poll]\<rparr>)
     = Inr (demo_after_sei\<lparr>executionState := execute,
              lastResult' := Some (op_interrupt 0xfffe (state demo_after_sei)),
              lastInstructionPointer' := 0x2001\<rparr>,
            demo_world\<lparr>trace := [BusRead 0x2000, BusRead 0x2001, Poll, BusRead 0x2001]\<rparr>) \<and>
   cycleType (op_interrupt 0xfffe (state demo_after_sei)) = write_cycle \<and>
   cycleType (op_nop ((state demo_after_sei)\<lparr>st_p := 0x2002\<rparr>)) = read_cycle \<and>
   executionState (halt demo_cpu) = fetch \<and>
   cycle demo_env (halt demo_cpu) demo_world = Inr (halt demo_cpu, demo_world)"
  by (simp add: cycles_numeral demo_before_sei_def demo_after_sei_def demo_run_simps)


lemma carried_poll_keeps:
  "st_p (state (carried_poll d w)) = st_p (state d)"
  "lastResult' (carried_poll d w) = lastResult' d"
  "executionState (carried_poll d w) = executionState d"
  "halt' (carried_poll d w) = halt' d"
  "interruptPending' (carried_poll d w) = interruptPending' d"
  by (simp_all add: carried_poll_def pollInterrupts'_eq)

lemma fetch'_nmi:
  assumes "st_nmi (state (carried_poll d w))"
  shows "fst (fetch' env d w) =
           (carried_poll d w)\<lparr>lastInstructionPointer' := st_p (state d),
              pollInterruptsAfterLastInstruction' := False, executionState := execute,
              lastResult' := Some (opNmi' env (state (carried_poll d w)))\<rparr>"
  using assms by (simp add: fetch'_eq Let_def carried_poll_def)

lemma fetch'_irq:
  assumes "\<not> st_nmi (state (carried_poll d w))" and "st_irq (state (carried_poll d w))"
  shows "fst (fetch' env d w) =
           (carried_poll d w)\<lparr>lastInstructionPointer' := st_p (state d),
              pollInterruptsAfterLastInstruction' := False, executionState := execute,
              lastResult' := Some (opIrq' env (state (carried_poll d w)))\<rparr>"
  using assms by (simp add: fetch'_eq Let_def carried_poll_def)

lemma fetch'_table:
  assumes "\<not> st_nmi (state (carried_poll d w))" and "\<not> st_irq (state (carried_poll d w))"
  shows "fst (fetch' env d w) =
           (let d3 = (carried_poll d w)\<lparr>lastInstructionPointer' := st_p (state d),
                        state := (state (carried_poll d w))
                                   \<lparr>st_p := (st_p (state d) + 1) mod 2 ^ 16\<rparr>,
                        pollInterruptsAfterLastInstruction' := True\<rparr>
            in case operations' env (fst (bus_read env (st_p (state d)) (ext w))) of
                 Some m \<Rightarrow> d3\<lparr>executionState := execute, lastResult' := Some (m (state d3))\<rparr>
               | None \<Rightarrow>
                   (case invalidInstructionCallback' env of
                      None \<Rightarrow> d3
                    | Some callback \<Rightarrow> callback d3))"
  using assms
  by (simp add: fetch'_eq Let_def carried_poll_def mask_16 split: option.splits)

text \<open>
  C3, amended: for every driver state in phase \<open>fetch\<close> on which \<open>cycle()\<close> is not suspended
  by halt, \<open>cycle()\<close> runs the poll carried over (if one is due), reads the opcode at \<open>p\<close>
  and dispatches: if the \<open>nmi\<close> latch is set it starts the NMI entry without advancing
  \<open>p\<close>; else if the \<open>irq\<close> latch is set, whatever the flag I, it starts the IRQ entry
  without advancing \<open>p\<close>; otherwise it sets \<open>p = (p + 1) mod 2^16\<close> and starts the
  micro-program of the opcode table, or, where the table has none, stays in phase \<open>fetch\<close>
  and calls the invalid-instruction callback if one is installed.
\<close>

theorem fetch_dispatch:
  assumes "executionState d = fetch" and "\<not> suspended d"
  shows "\<exists>d' w'. cycle env d w = Inr (d', w') \<and>
           (let dp = carried_poll d w;
                pc = st_p (state d);
                opcode = fst (bus_read env pc (ext w));
                next_p = (state dp)\<lparr>st_p := (pc + 1) mod 2 ^ 16\<rparr>
            in bus_ops (drop (length (trace w)) (trace w')) = [BusRead pc] \<and>
               (if st_nmi (state dp)
                then state d' = state dp \<and> executionState d' = execute \<and>
                     lastResult' d' = Some (opNmi' env (state dp))
                else if st_irq (state dp)
                then state d' = state dp \<and> executionState d' = execute \<and>
                     lastResult' d' = Some (opIrq' env (state dp))
                else (case operations' env opcode of
                        Some m \<Rightarrow>
                          state d' = next_p \<and> executionState d' = execute \<and>
                          lastResult' d' = Some (m next_p)
                      | None \<Rightarrow>
                          (case invalidInstructionCallback' env of
                             None \<Rightarrow>
                               state d' = next_p \<and> executionState d' = fetch \<and>
                               lastResult' d' = lastResult' d
                           | Some callback \<Rightarrow>
                               d' = callback (dp\<lparr>lastInstructionPointer' := pc,
                                                 state := next_p,
                                                 pollInterruptsAfterLastInstruction' := True\<rparr>)))))"
proof -
  let ?d' = "fst (fetch' env d w)" and ?w' = "snd (fetch' env d w)"
  let ?dp = "carried_poll d w"
  have c: "cycle env d w = Inr (?d', ?w')"
    using cycle_fetch [OF assms(2,1), of env w] by simp
  have t: "bus_ops (drop (length (trace w)) (trace ?w')) = [BusRead (st_p (state d))]"
    by (simp add: fetch'_trace)
  consider (nmi) "st_nmi (state ?dp)"
    | (irq) "\<not> st_nmi (state ?dp)" "st_irq (state ?dp)"
    | (table) "\<not> st_nmi (state ?dp)" "\<not> st_irq (state ?dp)"
    by blast
  then show ?thesis
  proof cases
    case nmi
    show ?thesis
      using c t nmi fetch'_nmi [OF nmi, of env] by (simp add: Let_def)
  next
    case irq
    show ?thesis
      using c t irq fetch'_irq [OF irq, of env] by (simp add: Let_def)
  next
    case table
    show ?thesis
      using c t table fetch'_table [OF table, of env] assms(1)
      by (simp add: Let_def carried_poll_keeps split: option.splits)
  qed
qed


theorem fetch_dispatch_witness:
  "executionState demo_after_sei = fetch \<and> \<not> suspended demo_after_sei \<and>
   (\<exists>d' w'. cycle demo_env demo_after_sei demo_world = Inr (d', w') \<and>
      bus_ops (drop (length (trace demo_world)) (trace w')) = [BusRead 0x2001] \<and>
      state d' = state demo_after_sei \<and> executionState d' = execute \<and>
      lastResult' d' = Some (op_interrupt 0xfffe (state demo_after_sei))) \<and>
   executionState demo_cpu = fetch \<and> \<not> suspended demo_cpu \<and>
   (\<exists>d' w'. cycle demo_env demo_cpu demo_world = Inr (d', w') \<and>
      bus_ops (drop (length (trace demo_world)) (trace w')) = [BusRead 0x1000] \<and>
      state d' = (state demo_cpu)\<lparr>st_p := 0x1001\<rparr> \<and> executionState d' = fetch)"
  using fetch_dispatch [of demo_after_sei demo_env demo_world]
    fetch_dispatch [of demo_cpu demo_env demo_world]
  by (auto simp add: demo_after_sei_def suspended_def carried_poll_def Let_def ram_read_def)

subsection \<open>Invalid opcodes\<close>




subsection \<open>When interrupts are polled\<close>

lemma count_polls_simps [simp]:
  "count_polls [] = 0" "count_polls (xs @ ys) = count_polls xs + count_polls ys"
  "count_polls (Poll # evs) = Suc (count_polls evs)"
  "count_polls (BusRead a # evs) = count_polls evs"
  "count_polls (BusWrite a v # evs) = count_polls evs"
  by (simp_all add: count_polls_def)










text \<open>
  The clearing reaches the micro-program: when the driver services the first result of
  \<open>op_reuse\<close>, whose flag is set, the result pending afterwards has its flag clear.
\<close>

lemma advance_op_reuse:
  "pollInterrupts (op_reuse s) \<and>
   lastResult' (fst (advance (op_reuse s) v d w))
     = Some (Result read_cycle (st_p (state d)) 0 False (\<lambda>f v s2. (None, s2)))"
  by (simp add: op_reuse_def advance_eq pollInterrupts'_eq Let_def)




end
